theory Spec2Isabelle
  imports Complex_Main
begin

section \<open>Python values used by the search component\<close>

text \<open>
  A Python \<open>str\<close> is a sequence of Unicode code points. The texts of this program are
  Vietnamese, so a byte string would not do: \<open>strip\<close> and \<open>==\<close> work on code points.
  String constants of the source are written with \<open>ascii\<close>, and the few non-ASCII
  letters of its messages by their code point.
\<close>

type_synonym codepoint = nat
type_synonym pystr = "codepoint list"

definition ascii :: "string \<Rightarrow> pystr" where
  "ascii s = map of_char s"

text \<open>
  The code points Python's \<open>str.isspace\<close> accepts, which are the ones \<open>str.strip()\<close>
  removes when it is called without an argument.
\<close>

definition isspace :: "codepoint \<Rightarrow> bool" where
  "isspace c \<longleftrightarrow>
     (0x09 \<le> c \<and> c \<le> 0x0D) \<or> (0x1C \<le> c \<and> c \<le> 0x20) \<or> c = 0x85 \<or> c = 0xA0 \<or>
     c = 0x1680 \<or> (0x2000 \<le> c \<and> c \<le> 0x200A) \<or> c = 0x2028 \<or> c = 0x2029 \<or>
     c = 0x202F \<or> c = 0x205F \<or> c = 0x3000"

definition strip :: "pystr \<Rightarrow> pystr" where
  "strip s = rev (dropWhile isspace (rev (dropWhile isspace s)))"

text \<open>\<open>sep.join(xs)\<close>\<close>

fun join :: "pystr \<Rightarrow> pystr list \<Rightarrow> pystr" where
  "join sep [] = []"
| "join sep [x] = x"
| "join sep (x # y # ys) = x @ sep @ join sep (y # ys)"

text \<open>\<open>needle in s\<close> on two strings: \<open>needle\<close> occurs in \<open>s\<close> as a contiguous run.\<close>

fun is_prefix :: "pystr \<Rightarrow> pystr \<Rightarrow> bool" where
  "is_prefix [] s = True"
| "is_prefix (a # as) [] = False"
| "is_prefix (a # as) (b # bs) = (a = b \<and> is_prefix as bs)"

fun str_contains :: "pystr \<Rightarrow> pystr \<Rightarrow> bool" where
  "str_contains needle [] = (needle = [])"
| "str_contains needle (c # cs) = (is_prefix needle (c # cs) \<or> str_contains needle cs)"

text \<open>\<open>str(n)\<close> of a non-negative integer, as an f-string formats it: decimal digits.\<close>

function str_nat :: "nat \<Rightarrow> pystr" where
  "str_nat n = (if n < 10 then [48 + n] else str_nat (n div 10) @ [48 + n mod 10])"
  by pat_completeness auto
termination
  by (relation "measure id") auto

declare str_nat.simps [simp del]

text \<open>
  A value that is a string or \<open>None\<close>: a nullable text column of the store, and a value
  of the dictionary that the lookup returns. An f-string prints \<open>None\<close> as the word
  \<open>None\<close>.
\<close>

datatype pyval = PyNone | PyStr pystr

fun format_val :: "pyval \<Rightarrow> pystr" where
  "format_val PyNone = ascii ''None''"
| "format_val (PyStr s) = s"

text \<open>A Python dictionary with string keys; a key that is not there is \<open>None\<close> of the map.\<close>

type_synonym dict = "string \<rightharpoonup> pyval"

text \<open>
  The exceptions of this program: the \<open>KeyError\<close> of a dictionary subscript, with the key,
  and the \<open>wn.Error\<close> that the lexicon raises for an identifier it does not have, with
  the identifier.
\<close>

datatype error = KeyError string | WnError pystr

text \<open>
  A list comprehension whose elements may raise: the elements are evaluated from the left
  and the first exception ends the evaluation.
\<close>

fun collect :: "(error + 'a) list \<Rightarrow> error + 'a list" where
  "collect [] = Inr []"
| "collect (x # xs) =
     (case x of Inl e \<Rightarrow> Inl e
      | Inr v \<Rightarrow> (case collect xs of Inl e \<Rightarrow> Inl e | Inr vs \<Rightarrow> Inr (v # vs)))"

definition getitem :: "dict \<Rightarrow> string \<Rightarrow> error + pyval" where
  "getitem d k = (case d k of None \<Rightarrow> Inl (KeyError k) | Some v \<Rightarrow> Inr v)"

section \<open>What the component takes from outside\<close>

text \<open>
  The SQLite store at \<open>db_path\<close>, one value per dataset version: the three tables the
  queries read, each a list of rows in the order the \<open>SELECT\<close> returns them. The code
  joins and normalises \<open>viet_word\<close>, \<open>tieng\<close>, \<open>word\<close> and \<open>synset_id\<close> as text; it tests
  \<open>viet_example\<close> against \<open>None\<close> and formats \<open>viet_definition\<close>, so these two are nullable.
\<close>

record data_row =
  synset_id :: pystr
  viet_word :: pystr
  viet_definition :: pyval
  viet_example :: pyval

record exact_row =
  exact_tieng :: pystr
  exact_synset_id :: pystr

record fuzz_row =
  fuzz_tieng :: pystr
  fuzz_word :: pystr

record store =
  VIETNET_DATA :: "data_row list"
  VIETNET_EXACT_SEARCH :: "exact_row list"
  VIETNET_FUZZ_SEARCH :: "fuzz_row list"

text \<open>
  The WordNet lexicon, a parameter of \<open>search_function\<close>. A synset is compared by its
  identity in the lexicon. \<open>synset\<close> looks an identifier up and has three outcomes: the
  synset; an exception, which is what \<open>wn.Wordnet.synset\<close>, the lexicon that
  \<open>vietnet_browser.py\<close> passes, does for an identifier it does not have (the converter
  scripts wrap the same call in \<open>try/except\<close>); or a falsy result \<open>None\<close>, which is what the
  test \<open>if lexicon.synset(ssid)\<close> of the caller provides for. \<open>synsets\<close> looks a word form
  up for a part of speech and returns a list, empty when there is none.
\<close>

record synset =
  syn_id :: pystr
  syn_lemmas :: "pystr list"
  syn_definition :: pyval
  syn_examples :: "pystr list"

record lexicon =
  synset :: "pystr \<Rightarrow> error + synset option"
  synsets :: "pystr \<Rightarrow> pystr \<Rightarrow> synset list"

text \<open>
  An element of the list \<open>search_function\<close> returns: the identifier string on the
  identifier path, and what the lexicon returned (a synset, or a falsy \<open>None\<close>) on the
  other.
\<close>

datatype hit = HitId pystr | HitSynset synset | HitNone

text \<open>
  What the Python runtime and \<open>rapidfuzz\<close> supply. \<open>str_lower\<close> is \<open>str.lower\<close>, the full
  Unicode lower-casing of the runtime's character database. \<open>fuzz_ratio\<close> is
  \<open>fuzz.ratio\<close>, a score between 0 and 100; only its order matters here, so the float
  is read as the real number it denotes. \<open>hits_of_set\<close> and \<open>scored_of_set\<close> are
  \<open>list(set(xs))\<close> at the two types it is used at: the order in which a set is iterated
  depends on the hashes, so it is a parameter, and \<open>set_iteration\<close> says what every
  such order satisfies.
\<close>

record runtime =
  str_lower :: "pystr \<Rightarrow> pystr"
  fuzz_ratio :: "pystr \<Rightarrow> pystr \<Rightarrow> real"
  hits_of_set :: "hit list \<Rightarrow> hit list"
  scored_of_set :: "(pystr \<times> real) list \<Rightarrow> (pystr \<times> real) list"

definition set_iteration :: "('a list \<Rightarrow> 'a list) \<Rightarrow> bool" where
  "set_iteration f \<longleftrightarrow> (\<forall>xs. distinct (f xs) \<and> set (f xs) = set xs)"

section \<open>\<open>components/utils_search.py\<close>\<close>

subsection \<open>\<open>normalize\<close>\<close>

text \<open>
  \<open>text.lower().strip()\<close>, with the lower-casing of the runtime. The function is named
  \<open>normalize_text\<close> here, \<open>normalize\<close> being a constant of the library.
\<close>

definition normalize_text :: "runtime \<Rightarrow> pystr \<Rightarrow> pystr" where
  "normalize_text rt text = strip (str_lower rt text)"

subsection \<open>\<open>get_viet_info_from_synset\<close>\<close>

text \<open>The loop \<open>for i in range(len(definitions_list))\<close>, from index \<open>i\<close> with the string so far.\<close>

fun definitions_loop :: "nat \<Rightarrow> pyval list \<Rightarrow> pystr \<Rightarrow> pystr" where
  "definitions_loop i [] definitions = definitions"
| "definitions_loop i (d # ds) definitions =
     definitions_loop (i + 1) ds
       (definitions @ str_nat (i + 1) @ ascii ''. '' @ format_val d @ ascii '' | '')"

text \<open>The loop over \<open>examples_list\<close>, with \<open>ex_count\<close> and the string so far.\<close>

fun examples_loop :: "pyval list \<Rightarrow> nat \<Rightarrow> pystr \<Rightarrow> pystr" where
  "examples_loop [] ex_count examples = examples"
| "examples_loop (PyNone # es) ex_count examples = examples_loop es ex_count examples"
| "examples_loop (PyStr e # es) ex_count examples =
     examples_loop es (ex_count + 1)
       (examples @ str_nat (ex_count + 1) @ ascii ''. '' @ e @ ascii '' | '')"

definition get_viet_info_from_synset :: "pystr \<Rightarrow> store \<Rightarrow> dict" where
  "get_viet_info_from_synset sid db =
     (let df_search = filter (\<lambda>r. synset_id r = sid) (VIETNET_DATA db) in
      if df_search \<noteq> [] then
        (let lemmas_list = map viet_word df_search;
             lemmas = (if lemmas_list \<noteq> [] then PyStr (join (ascii '', '') lemmas_list)
                       else PyNone);
             definitions = definitions_loop 0 (map viet_definition df_search) [];
             examples = examples_loop (map viet_example df_search) 0 []
         in [''viet_word'' \<mapsto> lemmas,
             ''viet_definition'' \<mapsto> PyStr definitions,
             ''viet_example'' \<mapsto> PyStr examples])
      else [''viet_word'' \<mapsto> PyNone,
            ''viet_definition'' \<mapsto> PyNone,
            ''viet_example'' \<mapsto> PyNone])"

subsection \<open>\<open>exact_search_vietnet_search\<close>\<close>

definition exact_search_vietnet_search :: "runtime \<Rightarrow> pystr \<Rightarrow> store \<Rightarrow> pystr list" where
  "exact_search_vietnet_search rt user_input db =
     (let query = normalize_text rt user_input in
      map exact_synset_id
        (filter (\<lambda>row. query = normalize_text rt (exact_tieng row)) (VIETNET_EXACT_SEARCH db)))"

subsection \<open>\<open>fuzzy_search_vietnet_search\<close>\<close>

text \<open>
  \<open>fuzzy_results\<close> is the list \<open>results\<close> when the loop over the index has ended,
  \<open>fuzzy_ranked\<close> the same list after \<open>list(set(results))\<close> and the stable sort on the
  key \<open>-score\<close>.
\<close>

definition fuzzy_results :: "runtime \<Rightarrow> pystr \<Rightarrow> store \<Rightarrow> real \<Rightarrow> (pystr \<times> real) list" where
  "fuzzy_results rt user_input db threshold =
     (let query = normalize_text rt user_input in
      map (\<lambda>row. (fuzz_word row, fuzz_ratio rt query (normalize_text rt (fuzz_tieng row))))
        (filter (\<lambda>row. fuzz_ratio rt query (normalize_text rt (fuzz_tieng row)) \<ge> threshold)
           (VIETNET_FUZZ_SEARCH db)))"

definition fuzzy_ranked :: "runtime \<Rightarrow> pystr \<Rightarrow> store \<Rightarrow> real \<Rightarrow> (pystr \<times> real) list" where
  "fuzzy_ranked rt user_input db threshold =
     sort_key (\<lambda>x. - snd x) (scored_of_set rt (fuzzy_results rt user_input db threshold))"

definition fuzzy_search_vietnet_search :: "runtime \<Rightarrow> pystr \<Rightarrow> store \<Rightarrow> real \<Rightarrow> pystr list" where
  "fuzzy_search_vietnet_search rt user_input db threshold =
     map fst (fuzzy_ranked rt user_input db threshold)"

subsection \<open>\<open>search_function\<close>\<close>

text \<open>The two messages: \<open>Synset_ID {ssid} kh\<dots>ng t\<dots>n t\<dots>i\<close> and \<open>B\<dots>n h\<dots>y th\<dots> t\<dots>m c\<dots>c t\<dots> sau: {suggestion}\<close>.\<close>

definition not_found_message :: "pystr \<Rightarrow> pystr" where
  "not_found_message ssid =
     ascii ''Synset_ID '' @ ssid @ ascii '' kh'' @ [0xF4] @ ascii ''ng t'' @ [0x1ED3] @
     ascii ''n t'' @ [0x1EA1] @ ascii ''i''"

definition suggestion_message :: "pystr \<Rightarrow> pystr" where
  "suggestion_message suggestion =
     ascii ''B'' @ [0x1EA1] @ ascii ''n h'' @ [0xE3] @ ascii ''y th'' @ [0x1EED] @ ascii '' t'' @
     [0xEC] @ ascii ''m c'' @ [0xE1] @ ascii ''c t'' @ [0x1EEB] @ ascii '' sau: '' @ suggestion"

text \<open>One element \<open>lexicon.synset(ssid)\<close> of the list comprehension over the exact hits.\<close>

definition lookup_hit :: "lexicon \<Rightarrow> pystr \<Rightarrow> error + hit" where
  "lookup_hit lexicon ssid =
     (case synset lexicon ssid of Inl e \<Rightarrow> Inl e
      | Inr None \<Rightarrow> Inr HitNone
      | Inr (Some s) \<Rightarrow> Inr (HitSynset s))"

text \<open>
  The result is the exception that a lookup of the lexicon raised, or the pair the source
  returns: the list, and the message or \<open>None\<close>.
\<close>

definition search_function :: "runtime \<Rightarrow> pystr \<Rightarrow> lexicon \<Rightarrow> store \<Rightarrow>
    error + hit list \<times> pystr option" where
  "search_function rt user_input lexicon db =
     (if str_contains (ascii ''oewn-'') user_input then
        (let ssid = strip user_input in
         (case synset lexicon ssid of Inl e \<Rightarrow> Inl e
          | Inr found \<Rightarrow>
              if found \<noteq> None then Inr ([HitId ssid], None)
              else Inr ([], Some (not_found_message ssid))))
      else
        (let temp = exact_search_vietnet_search rt user_input db in
         (case collect (map (lookup_hit lexicon) temp) of Inl e \<Rightarrow> Inl e
          | Inr looked_up \<Rightarrow>
              (let result = [] @ looked_up;
                   result = result @ map HitSynset (synsets lexicon user_input (ascii ''n''))
               in if result = [] then
                    (let recommended_search = fuzzy_search_vietnet_search rt user_input db 80;
                         suggestion = join (ascii '' | '') (take 5 recommended_search)
                     in Inr ([], Some (suggestion_message suggestion)))
                  else Inr (hits_of_set rt result, None)))))"

section \<open>\<open>components/class_Node.py\<close>\<close>

text \<open>
  \<open>Node.__init__\<close>: the object it builds, or the exception a subscript of the lookup's
  dictionary raises. The fields are assigned in the order of the source.
\<close>

datatype node = Node
  (node_synset: synset)
  (node_viet_lemmas: pyval)
  (node_viet_definition: pyval)
  (node_viet_example: pyval)
  (node_is_same: pyval)
  (node_lemmas: pystr)
  (node_definition: pyval)
  (node_example: "pystr list")
  (node_level: int)
  (node_children: "node list")

definition Node_init :: "synset \<Rightarrow> store \<Rightarrow> int \<Rightarrow> error + node" where
  "Node_init syn folder_path recursive_level =
     (let search_result = get_viet_info_from_synset (syn_id syn) folder_path in
      (case getitem search_result ''viet_word'' of Inl e \<Rightarrow> Inl e | Inr v_lemmas \<Rightarrow>
      (case getitem search_result ''viet_definition'' of Inl e \<Rightarrow> Inl e | Inr v_definition \<Rightarrow>
      (case getitem search_result ''viet_example'' of Inl e \<Rightarrow> Inl e | Inr v_example \<Rightarrow>
      (case getitem search_result ''is_same'' of Inl e \<Rightarrow> Inl e | Inr v_is_same \<Rightarrow>
        Inr (Node syn v_lemmas v_definition v_example v_is_same
               (join (ascii '', '') (syn_lemmas syn)) (syn_definition syn) (syn_examples syn)
               recursive_level []))))))"


text \<open>
  One call of the lookup against the store as a state: the source opens a connection, runs
  one \<open>SELECT\<close> and closes the connection, so the store after the call is the store
  before it.
\<close>

definition get_viet_info_call :: "pystr \<Rightarrow> store \<Rightarrow> dict \<times> store" where
  "get_viet_info_call sid db = (get_viet_info_from_synset sid db, db)"

section \<open>The aggregation rules in the specification's words\<close>

text \<open>
  The i-th row, counted from 1, gives \<open>{i}. {definition} | \<close>; the i-th example that is
  not null, counted from 1 among those that are not null, gives \<open>{i}. {example} | \<close>.
\<close>

definition numbered :: "nat \<Rightarrow> pystr \<Rightarrow> pystr" where
  "numbered i s = str_nat i @ ascii ''. '' @ s @ ascii '' | ''"

fun non_null :: "pyval list \<Rightarrow> pystr list" where
  "non_null [] = []"
| "non_null (PyNone # vs) = non_null vs"
| "non_null (PyStr s # vs) = s # non_null vs"

definition spec_definitions :: "pyval list \<Rightarrow> pystr" where
  "spec_definitions ds = concat (map (\<lambda>(i, d). numbered i (format_val d)) (enumerate 1 ds))"

definition spec_examples :: "pyval list \<Rightarrow> pystr" where
  "spec_examples es = concat (map (\<lambda>(i, e). numbered i e) (enumerate 1 (non_null es)))"

section \<open>Forest construction\<close>

text \<open>
  Modelled from the spec: \<open>components/class_NodeFamily.py\<close>, which builds the forest, is
  not among the sources. The relation kinds are the closed enumeration of section 9; the
  graph provider's relation enumeration is the parameter \<open>relations\<close> of the builder: the
  targets of a synset's outgoing relations of one kind, in the provider's order.
\<close>

datatype relation_kind = Hypernym | Hyponym | Meronym | Holonym




section \<open>Inputs for the examples\<close>

text \<open>
  A runtime to evaluate examples with. \<open>ascii_lower\<close> is \<open>str.lower\<close> on a text whose
  upper-case letters are all ASCII; \<open>indel_ratio\<close> is the normalised similarity behind
  \<open>fuzz.ratio\<close>, twice the longest common subsequence over the sum of the lengths, as a
  percentage; a set is iterated in the order of first insertion.
\<close>

definition ascii_lower :: "pystr \<Rightarrow> pystr" where
  "ascii_lower s = map (\<lambda>c. if 65 \<le> c \<and> c \<le> 90 then c + 32 else c) s"

fun lcs :: "pystr \<Rightarrow> pystr \<Rightarrow> nat" where
  "lcs [] ys = 0"
| "lcs (x # xs) [] = 0"
| "lcs (x # xs) (y # ys) =
     (if x = y then Suc (lcs xs ys) else max (lcs xs (y # ys)) (lcs (x # xs) ys))"

definition indel_ratio :: "pystr \<Rightarrow> pystr \<Rightarrow> real" where
  "indel_ratio a b =
     (if a = [] \<and> b = [] then 100
      else 100 * real (2 * lcs a b) / real (length a + length b))"

definition example_runtime :: runtime where
  "example_runtime =
     \<lparr>str_lower = ascii_lower, fuzz_ratio = indel_ratio,
      hits_of_set = remdups, scored_of_set = remdups\<rparr>"

text \<open>
  The store of scenario 4 of the specification: two annotation rows for one synset, with
  definitions \<open>A\<close> and \<open>B\<close>, a null example and the example \<open>ex1\<close>, and a row of another
  synset between them.
\<close>

definition example_store :: store where
  "example_store =
     \<lparr>VIETNET_DATA =
        [\<lparr>synset_id = ascii ''oewn-1-n'', viet_word = ascii ''w1'',
          viet_definition = PyStr (ascii ''A''), viet_example = PyNone\<rparr>,
         \<lparr>synset_id = ascii ''oewn-2-n'', viet_word = ascii ''w3'',
          viet_definition = PyNone, viet_example = PyNone\<rparr>,
         \<lparr>synset_id = ascii ''oewn-1-n'', viet_word = ascii ''w2'',
          viet_definition = PyStr (ascii ''B''), viet_example = PyStr (ascii ''ex1'')\<rparr>],
      VIETNET_EXACT_SEARCH =
        [\<lparr>exact_tieng = ascii ''Con ch'' @ [0xF3], exact_synset_id = ascii ''oewn-1-n''\<rparr>,
         \<lparr>exact_tieng = ascii ''dog'', exact_synset_id = ascii ''oewn-1-n''\<rparr>],
      VIETNET_FUZZ_SEARCH =
        [\<lparr>fuzz_tieng = ascii ''con ch'' @ [0xF3], fuzz_word = ascii ''con ch'' @ [0xF3]\<rparr>,
         \<lparr>fuzz_tieng = ascii ''con m'' @ [0xE8] @ ascii ''o'',
          fuzz_word = ascii ''con m'' @ [0xE8] @ ascii ''o''\<rparr>]\<rparr>"

definition synset1 :: synset where
  "synset1 = \<lparr>syn_id = ascii ''oewn-1-n'', syn_lemmas = [ascii ''dog''],
     syn_definition = PyStr (ascii ''a canine''), syn_examples = []\<rparr>"

definition synset2 :: synset where
  "synset2 = \<lparr>syn_id = ascii ''oewn-2-n'', syn_lemmas = [ascii ''dog'', ascii ''frank''],
     syn_definition = PyStr (ascii ''a sausage''), syn_examples = []\<rparr>"

text \<open>
  A lexicon of two synsets that behaves as \<open>wn.Wordnet\<close> does: an identifier it does not
  have raises \<open>wn.Error\<close>.
\<close>

definition example_lexicon :: lexicon where
  "example_lexicon =
     \<lparr>synset = (\<lambda>i. if i = ascii ''oewn-1-n'' then Inr (Some synset1)
                     else if i = ascii ''oewn-2-n'' then Inr (Some synset2) else Inl (WnError i)),
      synsets = (\<lambda>form pos. if form = ascii ''dog'' \<and> pos = ascii ''n'' then [synset1, synset2]
                     else [])\<rparr>"

text \<open>The same lexicon, but with the falsy result \<open>None\<close> for an identifier it does not have.\<close>

definition falsy_lexicon :: lexicon where
  "falsy_lexicon =
     \<lparr>synset = (\<lambda>i. if i = ascii ''oewn-1-n'' then Inr (Some synset1)
                     else if i = ascii ''oewn-2-n'' then Inr (Some synset2) else Inr None),
      synsets = (\<lambda>form pos. if form = ascii ''dog'' \<and> pos = ascii ''n'' then [synset1, synset2]
                     else [])\<rparr>"

text \<open>
  A store whose exact index maps the word \<open>ma\<close> to an identifier that neither lexicon
  has.
\<close>

definition dangling_store :: store where
  "dangling_store =
     \<lparr>VIETNET_DATA = [],
      VIETNET_EXACT_SEARCH = [\<lparr>exact_tieng = ascii ''ma'', exact_synset_id = ascii ''oewn-9-n''\<rparr>],
      VIETNET_FUZZ_SEARCH = []\<rparr>"


text \<open>A fuzzy index of six rows with one source word and six labels.\<close>

definition six_words :: store where
  "six_words =
     \<lparr>VIETNET_DATA = [], VIETNET_EXACT_SEARCH = [],
      VIETNET_FUZZ_SEARCH =
        map (\<lambda>w. \<lparr>fuzz_tieng = ascii ''ab'', fuzz_word = ascii w\<rparr>)
          [''w1'', ''w2'', ''w3'', ''w4'', ''w5'', ''w6'']\<rparr>"

section \<open>The annotation lookup\<close>

text \<open>The two loops compute the numbered strings of the specification, after any start.\<close>

lemma definitions_loop_eq:
  "definitions_loop i ds acc =
     acc @ concat (map (\<lambda>(i, d). numbered i (format_val d)) (enumerate (i + 1) ds))"
  by (induction ds arbitrary: i acc) (simp_all add: numbered_def)

lemma examples_loop_eq:
  "examples_loop es c acc =
     acc @ concat (map (\<lambda>(i, e). numbered i e) (enumerate (c + 1) (non_null es)))"
  by (induction es c acc rule: examples_loop.induct) (simp_all add: numbered_def)

lemma str_nat_digit: "n < 10 \<Longrightarrow> str_nat n = [48 + n]"
  by (simp add: str_nat.simps)

text \<open>
  C1. When the store has at least one row for the identifier, the definition string of
  the record is the concatenation of \<open>{i}. {definition} | \<close> over the rows in store order,
  numbered from 1, a null definition being printed as \<open>None\<close> and taking its number; the
  example string is the concatenation of \<open>{i}. {example} | \<close> over the examples that are
  not null, numbered from 1 by a counter of their own. For two rows with definitions
  \<open>A\<close> and \<open>B\<close> and examples null and \<open>ex1\<close> the strings are \<open>1. A | 2. B | \<close> and
  \<open>1. ex1 | \<close>.
\<close>

theorem annotation_numbering:
  assumes "filter (\<lambda>r. synset_id r = sid) (VIETNET_DATA db) = rows" and "rows \<noteq> []"
  shows "get_viet_info_from_synset sid db ''viet_definition''
           = Some (PyStr (spec_definitions (map viet_definition rows)))
       \<and> get_viet_info_from_synset sid db ''viet_example''
           = Some (PyStr (spec_examples (map viet_example rows)))
       \<and> (map viet_definition rows = [PyStr (ascii ''A''), PyStr (ascii ''B'')] \<and>
          map viet_example rows = [PyNone, PyStr (ascii ''ex1'')] \<longrightarrow>
            get_viet_info_from_synset sid db ''viet_definition''
              = Some (PyStr (ascii ''1. A | 2. B | '')) \<and>
            get_viet_info_from_synset sid db ''viet_example''
              = Some (PyStr (ascii ''1. ex1 | '')))"
proof -
  have d: "get_viet_info_from_synset sid db ''viet_definition''
           = Some (PyStr (spec_definitions (map viet_definition rows)))"
    using assms
    by (simp add: get_viet_info_from_synset_def Let_def definitions_loop_eq spec_definitions_def)
  have e: "get_viet_info_from_synset sid db ''viet_example''
           = Some (PyStr (spec_examples (map viet_example rows)))"
    using assms
    by (simp add: get_viet_info_from_synset_def Let_def examples_loop_eq spec_examples_def)
  have sd: "spec_definitions [PyStr (ascii ''A''), PyStr (ascii ''B'')] = ascii ''1. A | 2. B | ''"
    by (simp add: spec_definitions_def numbered_def str_nat_digit ascii_def)
  have se: "spec_examples [PyNone, PyStr (ascii ''ex1'')] = ascii ''1. ex1 | ''"
    by (simp add: spec_examples_def numbered_def str_nat_digit ascii_def)
  show ?thesis
    using d e sd se by simp
qed

text \<open>
  The theorem at the example store: the synset with two rows, and the synset whose one
  row has a null definition.
\<close>

theorem annotation_numbering_witness:
  "get_viet_info_from_synset (ascii ''oewn-1-n'') example_store ''viet_definition''
     = Some (PyStr (ascii ''1. A | 2. B | ''))
   \<and> get_viet_info_from_synset (ascii ''oewn-1-n'') example_store ''viet_example''
     = Some (PyStr (ascii ''1. ex1 | ''))
   \<and> get_viet_info_from_synset (ascii ''oewn-2-n'') example_store ''viet_definition''
     = Some (PyStr (ascii ''1. None | ''))"
proof -
  let ?r1 = "\<lparr>synset_id = ascii ''oewn-1-n'', viet_word = ascii ''w1'',
          viet_definition = PyStr (ascii ''A''), viet_example = PyNone\<rparr>"
  let ?r2 = "\<lparr>synset_id = ascii ''oewn-1-n'', viet_word = ascii ''w2'',
          viet_definition = PyStr (ascii ''B''), viet_example = PyStr (ascii ''ex1'')\<rparr>"
  let ?r3 = "\<lparr>synset_id = ascii ''oewn-2-n'', viet_word = ascii ''w3'',
          viet_definition = PyNone, viet_example = PyNone\<rparr>"
  have h1: "filter (\<lambda>r. synset_id r = ascii ''oewn-1-n'') (VIETNET_DATA example_store) = [?r1, ?r2]"
    by (simp add: example_store_def ascii_def)
  have h2: "filter (\<lambda>r. synset_id r = ascii ''oewn-2-n'') (VIETNET_DATA example_store) = [?r3]"
    by (simp add: example_store_def ascii_def)
  have n: "spec_definitions [PyNone] = ascii ''1. None | ''"
    by (simp add: spec_definitions_def numbered_def str_nat_digit ascii_def)
  have c: "[?r1, ?r2] \<noteq> []" "[?r3] \<noteq> []"
    "map viet_definition [?r1, ?r2] = [PyStr (ascii ''A''), PyStr (ascii ''B'')] \<and>
     map viet_example [?r1, ?r2] = [PyNone, PyStr (ascii ''ex1'')]"
    "map viet_definition [?r3] = [PyNone]"
    by simp_all
  have a: "get_viet_info_from_synset (ascii ''oewn-1-n'') example_store ''viet_definition''
             = Some (PyStr (ascii ''1. A | 2. B | ''))
         \<and> get_viet_info_from_synset (ascii ''oewn-1-n'') example_store ''viet_example''
             = Some (PyStr (ascii ''1. ex1 | ''))"
    using annotation_numbering [OF h1 c(1)] c(3) by blast
  have b: "get_viet_info_from_synset (ascii ''oewn-2-n'') example_store ''viet_definition''
             = Some (PyStr (ascii ''1. None | ''))"
    using annotation_numbering [OF h2 c(2)] n by (simp only: c(4))
  from a b show ?thesis by blast
qed

text \<open>
  C7. When the store has no row for the identifier, the lookup returns the record whose
  three fields are all \<open>None\<close>: a value, not an error.
\<close>

theorem annotation_absent:
  assumes "filter (\<lambda>r. synset_id r = sid) (VIETNET_DATA db) = []"
  shows "get_viet_info_from_synset sid db =
           [''viet_word'' \<mapsto> PyNone, ''viet_definition'' \<mapsto> PyNone, ''viet_example'' \<mapsto> PyNone]
       \<and> (\<forall>k v. get_viet_info_from_synset sid db k = Some v \<longrightarrow> v = PyNone)"
  using assms by (simp add: get_viet_info_from_synset_def)

theorem annotation_absent_witness:
  "filter (\<lambda>r. synset_id r = ascii ''oewn-9-n'') (VIETNET_DATA example_store) = []
   \<and> get_viet_info_from_synset (ascii ''oewn-9-n'') example_store ''viet_word'' = Some PyNone
   \<and> get_viet_info_from_synset (ascii ''oewn-9-n'') example_store ''viet_definition'' = Some PyNone
   \<and> get_viet_info_from_synset (ascii ''oewn-9-n'') example_store ''viet_example'' = Some PyNone"
proof -
  have h: "filter (\<lambda>r. synset_id r = ascii ''oewn-9-n'') (VIETNET_DATA example_store) = []"
    by (simp add: example_store_def ascii_def)
  from annotation_absent [OF h] h show ?thesis by simp
qed

text \<open>
  C9. A call of the lookup leaves the store as it was, and a second call with the same
  identifier on the store the first call left returns the same record.
\<close>

theorem annotation_lookup_repeatable:
  "snd (get_viet_info_call sid db) = db
   \<and> fst (get_viet_info_call sid (snd (get_viet_info_call sid db))) = fst (get_viet_info_call sid db)"
  by (simp add: get_viet_info_call_def)

section \<open>The node constructor\<close>

text \<open>
  C2. The record of the lookup has the keys \<open>viet_word\<close>, \<open>viet_definition\<close> and
  \<open>viet_example\<close> and no key \<open>is_same\<close>, in both of its branches, so the subscript
  \<open>search_result['is_same']\<close> of \<open>Node.__init__\<close> raises \<open>KeyError\<close> for every synset,
  store and level: the constructor never returns a node.
\<close>

theorem Node_init_KeyError:
  "Node_init syn db recursive_level = Inl (KeyError ''is_same'')"
  by (simp add: Node_init_def getitem_def get_viet_info_from_synset_def Let_def)

section \<open>Seed resolution\<close>

text \<open>\<open>needle in s\<close> holds exactly when \<open>s\<close> splits around an occurrence of \<open>needle\<close>.\<close>

lemma is_prefix_iff: "is_prefix n s \<longleftrightarrow> (\<exists>suf. s = n @ suf)"
  by (induction n s rule: is_prefix.induct) auto

lemma str_contains_iff: "str_contains n s \<longleftrightarrow> (\<exists>pre suf. s = pre @ n @ suf)"
proof (induction s)
  case Nil
  then show ?case by auto
next
  case (Cons c cs)
  show ?case
  proof
    assume "str_contains n (c # cs)"
    then consider "is_prefix n (c # cs)" | "str_contains n cs" by auto
    then show "\<exists>pre suf. c # cs = pre @ n @ suf"
    proof cases
      case 1
      then obtain suf where "c # cs = n @ suf" by (auto simp: is_prefix_iff)
      then have "c # cs = [] @ n @ suf" by simp
      then show ?thesis by blast
    next
      case 2
      then obtain pre suf where "cs = pre @ n @ suf" using Cons.IH by blast
      then have "c # cs = (c # pre) @ n @ suf" by simp
      then show ?thesis by blast
    qed
  next
    assume "\<exists>pre suf. c # cs = pre @ n @ suf"
    then obtain pre suf where e: "c # cs = pre @ n @ suf" by blast
    show "str_contains n (c # cs)"
    proof (cases pre)
      case Nil
      then have "is_prefix n (c # cs)" using e by (auto simp: is_prefix_iff)
      then show ?thesis by simp
    next
      case (Cons p ps)
      then have "cs = ps @ n @ suf" using e by simp
      then have "str_contains n cs" using Cons.IH by blast
      then show ?thesis by simp
    qed
  qed
qed

lemma not_found_message_contains: "str_contains ssid (not_found_message ssid)"
  unfolding str_contains_iff not_found_message_def by blast

lemma message_heads: "not_found_message ssid \<noteq> suggestion_message suggestion"
  by (simp add: not_found_message_def suggestion_message_def ascii_def)

lemma set_iteration_remdups: "set_iteration remdups"
  by (simp add: set_iteration_def)

text \<open>
  The two branches of \<open>search_function\<close>, and a list comprehension none of whose
  elements raises.
\<close>

lemma collect_all_Inr:
  "\<forall>x \<in> set xs. f x = Inr (g x) \<Longrightarrow> collect (map f xs) = Inr (map g xs)"
  by (induction xs) simp_all

lemma marker_branch:
  assumes "str_contains (ascii ''oewn-'') user_input"
  shows "search_function rt user_input lexicon db
     = (case synset lexicon (strip user_input) of
          Inl e \<Rightarrow> Inl e
        | Inr None \<Rightarrow> Inr ([], Some (not_found_message (strip user_input)))
        | Inr (Some s) \<Rightarrow> Inr ([HitId (strip user_input)], None))"
  using assms by (simp add: search_function_def Let_def split: sum.splits option.splits)

lemma free_text_branch:
  assumes "\<not> str_contains (ascii ''oewn-'') user_input"
  shows "search_function rt user_input lexicon db
     = (case collect (map (lookup_hit lexicon) (exact_search_vietnet_search rt user_input db)) of
          Inl e \<Rightarrow> Inl e
        | Inr looked_up \<Rightarrow>
            if looked_up @ map HitSynset (synsets lexicon user_input (ascii ''n'')) = []
            then Inr ([], Some (suggestion_message (join (ascii '' | '')
                     (take 5 (fuzzy_search_vietnet_search rt user_input db 80)))))
            else Inr (hits_of_set rt
                     (looked_up @ map HitSynset (synsets lexicon user_input (ascii ''n''))), None))"
  using assms by (simp add: search_function_def Let_def split: sum.splits)

text \<open>
  C3. The first half holds: an identifier that the lexicon has, with blanks around it, gives
  the list of exactly the stripped identifier and no message. The second half fails for
  the lexicon the program passes: \<open>wn.Wordnet.synset\<close> raises \<open>wn.Error\<close> for an identifier
  it does not have, so the exception leaves \<open>search_function\<close> and the branch that
  returns the message \<open>Synset_ID \<dots>\<close> is never reached; it is reached only with a lexicon
  that returns a falsy value instead.
\<close>

theorem search_unknown_identifier_raises:
  "search_function example_runtime (ascii '' oewn-1-n  '') example_lexicon example_store
     = Inr ([HitId (ascii ''oewn-1-n'')], None)
   \<and> synset example_lexicon (ascii ''oewn-7-n'') = Inl (WnError (ascii ''oewn-7-n''))
   \<and> search_function example_runtime (ascii ''oewn-7-n'') example_lexicon example_store
     = Inl (WnError (ascii ''oewn-7-n''))
   \<and> search_function example_runtime (ascii ''oewn-7-n'') falsy_lexicon example_store
     = Inr ([], Some (not_found_message (ascii ''oewn-7-n'')))"
proof -
  have c1: "str_contains (ascii ''oewn-'') (ascii '' oewn-1-n  '')"
    by (simp add: ascii_def)
  have s1: "strip (ascii '' oewn-1-n  '') = ascii ''oewn-1-n''"
    by (simp add: ascii_def strip_def isspace_def)
  have l1: "synset example_lexicon (ascii ''oewn-1-n'') = Inr (Some synset1)"
    by (simp add: example_lexicon_def)
  have c2: "str_contains (ascii ''oewn-'') (ascii ''oewn-7-n'')"
    by (simp add: ascii_def)
  have s2: "strip (ascii ''oewn-7-n'') = ascii ''oewn-7-n''"
    by (simp add: ascii_def strip_def isspace_def)
  have l2: "synset example_lexicon (ascii ''oewn-7-n'') = Inl (WnError (ascii ''oewn-7-n''))"
    by (simp add: example_lexicon_def ascii_def)
  have l3: "synset falsy_lexicon (ascii ''oewn-7-n'') = Inr None"
    by (simp add: falsy_lexicon_def ascii_def)
  show ?thesis
    by (simp add: marker_branch [OF c1] marker_branch [OF c2] s1 s2 l1 l2 l3)
qed

text \<open>
  C10. An input with \<open>oewn-\<close> anywhere in it takes the identifier path on the stripped
  input: the result is a function of the lexicon's identifier lookup of the stripped
  input alone (its exception, the not-found message, or the list of the stripped input),
  it is the same under any other runtime (lower-casing, similarity ratio, set order),
  store and lemma lookup, and it never carries the suggestion message.
\<close>

theorem search_marker_anywhere:
  "search_function rt (pre @ ascii ''oewn-'' @ suf) lexicon db
     = (case synset lexicon (strip (pre @ ascii ''oewn-'' @ suf)) of
          Inl e \<Rightarrow> Inl e
        | Inr None \<Rightarrow> Inr ([], Some (not_found_message (strip (pre @ ascii ''oewn-'' @ suf))))
        | Inr (Some s) \<Rightarrow> Inr ([HitId (strip (pre @ ascii ''oewn-'' @ suf))], None))
   \<and> search_function rt (pre @ ascii ''oewn-'' @ suf) lexicon db
     = search_function rt' (pre @ ascii ''oewn-'' @ suf) (lexicon\<lparr>synsets := other_synsets\<rparr>) db'
   \<and> search_function rt (pre @ ascii ''oewn-'' @ suf) lexicon db
       \<noteq> Inr (candidates, Some (suggestion_message suggestion))"
proof -
  have c: "str_contains (ascii ''oewn-'') (pre @ ascii ''oewn-'' @ suf)"
    unfolding str_contains_iff by blast
  show ?thesis
    by (simp add: marker_branch [OF c] message_heads split: sum.splits option.splits)
qed

text \<open>
  The theorem at an identifier with blanks around it, which the lexicon has only without
  them; at an ill-formed input with the marker in the middle, which \<open>wn.Wordnet\<close> does
  not have; and at a sentence with the marker, for the lexicon with the falsy result.
\<close>

theorem search_marker_anywhere_witness:
  "search_function example_runtime (ascii '' oewn-1-n  '') example_lexicon example_store
     = Inr ([HitId (ascii ''oewn-1-n'')], None)
   \<and> search_function example_runtime (ascii ''xoewn-y'') example_lexicon example_store
     = Inl (WnError (ascii ''xoewn-y''))
   \<and> search_function example_runtime (ascii ''the oewn-2-n '') falsy_lexicon example_store
     = Inr ([], Some (not_found_message (ascii ''the oewn-2-n'')))"
proof -
  have e1: "ascii '' oewn-1-n  '' = ascii '' '' @ ascii ''oewn-'' @ ascii ''1-n  ''"
    by (simp add: ascii_def)
  have e2: "ascii ''xoewn-y'' = ascii ''x'' @ ascii ''oewn-'' @ ascii ''y''"
    by (simp add: ascii_def)
  have e3: "ascii ''the oewn-2-n '' = ascii ''the '' @ ascii ''oewn-'' @ ascii ''2-n ''"
    by (simp add: ascii_def)
  have s1: "strip (ascii '' oewn-1-n  '') = ascii ''oewn-1-n''"
    by (simp add: ascii_def strip_def isspace_def)
  have s2: "strip (ascii ''xoewn-y'') = ascii ''xoewn-y''"
    by (simp add: ascii_def strip_def isspace_def)
  have s3: "strip (ascii ''the oewn-2-n '') = ascii ''the oewn-2-n''"
    by (simp add: ascii_def strip_def isspace_def)
  have l1: "synset example_lexicon (ascii ''oewn-1-n'') = Inr (Some synset1)"
    by (simp add: example_lexicon_def)
  have l2: "synset example_lexicon (ascii ''xoewn-y'') = Inl (WnError (ascii ''xoewn-y''))"
    by (simp add: example_lexicon_def ascii_def)
  have l3: "synset falsy_lexicon (ascii ''the oewn-2-n'') = Inr None"
    by (simp add: falsy_lexicon_def ascii_def)
  have a: "search_function example_runtime (ascii '' oewn-1-n  '') example_lexicon example_store
     = Inr ([HitId (ascii ''oewn-1-n'')], None)"
    using search_marker_anywhere [of example_runtime "ascii '' ''" "ascii ''1-n  ''"
        example_lexicon example_store]
    by (simp add: e1 [symmetric] s1 l1)
  have b: "search_function example_runtime (ascii ''xoewn-y'') example_lexicon example_store
     = Inl (WnError (ascii ''xoewn-y''))"
    using search_marker_anywhere [of example_runtime "ascii ''x''" "ascii ''y''"
        example_lexicon example_store]
    by (simp add: e2 [symmetric] s2 l2)
  have c: "search_function example_runtime (ascii ''the oewn-2-n '') falsy_lexicon example_store
     = Inr ([], Some (not_found_message (ascii ''the oewn-2-n'')))"
    using search_marker_anywhere [of example_runtime "ascii ''the ''" "ascii ''2-n ''"
        falsy_lexicon example_store]
    by (simp add: e3 [symmetric] s3 l3)
  from a b c show ?thesis by blast
qed

text \<open>
  C4, as the source has it. For an input without the marker, when every identifier that
  the exact matcher returns is one the lexicon has (\<open>found\<close> names its synset) and the
  exact matcher or the noun lemma lookup returns something, the result has no message and
  its list is non-empty, free of duplicates and holds exactly the synsets of the two paths,
  also when they overlap; and for no input is the list empty when there is no message.
\<close>

theorem search_free_text_resolved:
  assumes "set_iteration (hits_of_set rt)"
    and "\<not> str_contains (ascii ''oewn-'') user_input"
    and "\<forall>ssid \<in> set (exact_search_vietnet_search rt user_input db).
           synset lexicon ssid = Inr (Some (found ssid))"
    and "exact_search_vietnet_search rt user_input db \<noteq> []
         \<or> synsets lexicon user_input (ascii ''n'') \<noteq> []"
  shows "(\<exists>candidates.
            search_function rt user_input lexicon db = Inr (candidates, None)
          \<and> candidates \<noteq> [] \<and> distinct candidates
          \<and> set candidates
              = HitSynset ` (found ` set (exact_search_vietnet_search rt user_input db)
                             \<union> set (synsets lexicon user_input (ascii ''n''))))
       \<and> (\<forall>u candidates. search_function rt u lexicon db = Inr (candidates, None)
              \<longrightarrow> candidates \<noteq> [])"
proof -
  let ?temp = "exact_search_vietnet_search rt user_input db"
  let ?result = "map (\<lambda>ssid. HitSynset (found ssid)) ?temp
                 @ map HitSynset (synsets lexicon user_input (ascii ''n''))"
  have it: "distinct (hits_of_set rt xs) \<and> set (hits_of_set rt xs) = set xs" for xs
    using assms(1) by (simp add: set_iteration_def)
  have ne: "hits_of_set rt xs \<noteq> []" if "xs \<noteq> []" for xs
  proof
    assume "hits_of_set rt xs = []"
    then have "set xs = {}" using it [of xs] by simp
    with that show False by simp
  qed
  have "\<forall>ssid \<in> set ?temp. lookup_hit lexicon ssid = Inr (HitSynset (found ssid))"
    using assms(3) by (simp add: lookup_hit_def)
  then have c: "collect (map (lookup_hit lexicon) ?temp)
      = Inr (map (\<lambda>ssid. HitSynset (found ssid)) ?temp)"
    by (rule collect_all_Inr)
  have r: "?result \<noteq> []" using assms(4) by auto
  have s: "search_function rt user_input lexicon db = Inr (hits_of_set rt ?result, None)"
    using r by (simp add: free_text_branch [OF assms(2)] c)
  have "set (hits_of_set rt ?result)
      = HitSynset ` (found ` set ?temp \<union> set (synsets lexicon user_input (ascii ''n'')))"
    using it [of ?result] by (simp add: image_Un image_image)
  then have first: "\<exists>candidates.
            search_function rt user_input lexicon db = Inr (candidates, None)
          \<and> candidates \<noteq> [] \<and> distinct candidates
          \<and> set candidates
              = HitSynset ` (found ` set ?temp \<union> set (synsets lexicon user_input (ascii ''n'')))"
    using s ne [OF r] it [of ?result] by blast
  have second: "candidates \<noteq> []"
    if h: "search_function rt u lexicon db = Inr (candidates, None)" for u candidates
  proof (cases "str_contains (ascii ''oewn-'') u")
    case True
    from h have eq: "(case synset lexicon (strip u) of
          Inl e \<Rightarrow> Inl e
        | Inr None \<Rightarrow> Inr ([], Some (not_found_message (strip u)))
        | Inr (Some s) \<Rightarrow> Inr ([HitId (strip u)], None)) = Inr (candidates, None)"
      by (simp only: marker_branch [OF True])
    show ?thesis
    proof (cases "synset lexicon (strip u)")
      case (Inl e)
      with eq show ?thesis by simp
    next
      case (Inr opt)
      with eq show ?thesis by (cases opt) auto
    qed
  next
    case False
    let ?looked = "collect (map (lookup_hit lexicon) (exact_search_vietnet_search rt u db))"
    from h have eq: "(case ?looked of
          Inl e \<Rightarrow> Inl e
        | Inr looked_up \<Rightarrow>
            if looked_up @ map HitSynset (synsets lexicon u (ascii ''n'')) = []
            then Inr ([], Some (suggestion_message (join (ascii '' | '')
                     (take 5 (fuzzy_search_vietnet_search rt u db 80)))))
            else Inr (hits_of_set rt
                     (looked_up @ map HitSynset (synsets lexicon u (ascii ''n''))), None))
        = Inr (candidates, None)"
      by (simp only: free_text_branch [OF False])
    show ?thesis
    proof (cases ?looked)
      case (Inl e)
      with eq show ?thesis by simp
    next
      case (Inr looked_up)
      show ?thesis
      proof (cases "looked_up @ map HitSynset (synsets lexicon u (ascii ''n'')) = []")
        case True
        with eq Inr show ?thesis by simp
      next
        case False
        with eq Inr have "candidates
            = hits_of_set rt (looked_up @ map HitSynset (synsets lexicon u (ascii ''n'')))"
          by (auto split: if_splits)
        with ne [OF False] show ?thesis by simp
      qed
    qed
  qed
  from first second show ?thesis by blast
qed

text \<open>
  The theorem at the query \<open>dog\<close>: the exact index maps it to the first synset, the lemma
  lookup returns the first and the second.
\<close>

theorem search_free_text_resolved_witness:
  "set_iteration (hits_of_set example_runtime)
   \<and> \<not> str_contains (ascii ''oewn-'') (ascii ''dog'')
   \<and> exact_search_vietnet_search example_runtime (ascii ''dog'') example_store = [ascii ''oewn-1-n'']
   \<and> synset example_lexicon (ascii ''oewn-1-n'') = Inr (Some synset1)
   \<and> synsets example_lexicon (ascii ''dog'') (ascii ''n'') = [synset1, synset2]
   \<and> search_function example_runtime (ascii ''dog'') example_lexicon example_store
        = Inr ([HitSynset synset1, HitSynset synset2], None)
   \<and> (\<exists>candidates.
         search_function example_runtime (ascii ''dog'') example_lexicon example_store
           = Inr (candidates, None)
       \<and> candidates \<noteq> [] \<and> distinct candidates
       \<and> set candidates = {HitSynset synset1, HitSynset synset2})"
proof -
  have h1: "set_iteration (hits_of_set example_runtime)"
    by (simp add: example_runtime_def set_iteration_remdups)
  have h2: "\<not> str_contains (ascii ''oewn-'') (ascii ''dog'')"
    by (simp add: ascii_def)
  have e: "exact_search_vietnet_search example_runtime (ascii ''dog'') example_store
             = [ascii ''oewn-1-n'']"
    by (simp add: exact_search_vietnet_search_def normalize_text_def example_runtime_def
        example_store_def ascii_lower_def strip_def isspace_def ascii_def)
  have k: "synset example_lexicon (ascii ''oewn-1-n'') = Inr (Some synset1)"
    by (simp add: example_lexicon_def)
  have l: "synsets example_lexicon (ascii ''dog'') (ascii ''n'') = [synset1, synset2]"
    by (simp add: example_lexicon_def)
  have h3: "\<forall>ssid \<in> set (exact_search_vietnet_search example_runtime (ascii ''dog'') example_store).
           synset example_lexicon ssid = Inr (Some ((\<lambda>i. synset1) ssid))"
    using e k by simp
  have h4: "exact_search_vietnet_search example_runtime (ascii ''dog'') example_store \<noteq> []
         \<or> synsets example_lexicon (ascii ''dog'') (ascii ''n'') \<noteq> []"
    using e by simp
  have v: "search_function example_runtime (ascii ''dog'') example_lexicon example_store
        = Inr ([HitSynset synset1, HitSynset synset2], None)"
    by (simp add: free_text_branch [OF h2] e l k lookup_hit_def)
       (simp add: example_runtime_def synset1_def synset2_def ascii_def)
  from search_free_text_resolved [OF h1 h2 h3 h4] have
    "\<exists>candidates.
         search_function example_runtime (ascii ''dog'') example_lexicon example_store
           = Inr (candidates, None)
       \<and> candidates \<noteq> [] \<and> distinct candidates
       \<and> set candidates = {HitSynset synset1, HitSynset synset2}"
    unfolding e l by auto
  with h1 h2 e k l v show ?thesis by blast
qed

text \<open>
  C4, as the claim states it, fails when the exact index holds an identifier the lexicon
  does not have: the exact matcher returns it, so the union is not empty, and the lookup
  in the list comprehension raises \<open>wn.Error\<close>; with the lexicon of the falsy result the
  list returned is \<open>[None]\<close>, which holds no synset.
\<close>

theorem search_dangling_identifier:
  "\<not> str_contains (ascii ''oewn-'') (ascii ''ma'')
   \<and> exact_search_vietnet_search example_runtime (ascii ''ma'') dangling_store = [ascii ''oewn-9-n'']
   \<and> search_function example_runtime (ascii ''ma'') example_lexicon dangling_store
       = Inl (WnError (ascii ''oewn-9-n''))
   \<and> search_function example_runtime (ascii ''ma'') falsy_lexicon dangling_store
       = Inr ([HitNone], None)"
proof -
  have h: "\<not> str_contains (ascii ''oewn-'') (ascii ''ma'')"
    by (simp add: ascii_def)
  have e: "exact_search_vietnet_search example_runtime (ascii ''ma'') dangling_store
             = [ascii ''oewn-9-n'']"
    by (simp add: exact_search_vietnet_search_def normalize_text_def example_runtime_def
        dangling_store_def ascii_lower_def strip_def isspace_def ascii_def)
  have k1: "synset example_lexicon (ascii ''oewn-9-n'') = Inl (WnError (ascii ''oewn-9-n''))"
    by (simp add: example_lexicon_def ascii_def)
  have k2: "synset falsy_lexicon (ascii ''oewn-9-n'') = Inr None"
    by (simp add: falsy_lexicon_def ascii_def)
  have l: "synsets example_lexicon (ascii ''ma'') (ascii ''n'') = []"
    "synsets falsy_lexicon (ascii ''ma'') (ascii ''n'') = []"
    by (simp_all add: example_lexicon_def falsy_lexicon_def ascii_def)
  have u: "hits_of_set example_runtime [HitNone] = [HitNone]"
    by (simp add: example_runtime_def)
  show ?thesis
    using h by (simp add: free_text_branch [OF h] lookup_hit_def e k1 k2 l u)
qed

section \<open>Fuzzy suggestions\<close>

lemma fuzzy_results_set:
  "set (fuzzy_results rt q db t)
     = {(fuzz_word row, fuzz_ratio rt (normalize_text rt q) (normalize_text rt (fuzz_tieng row))) | row.
          row \<in> set (VIETNET_FUZZ_SEARCH db)
        \<and> t \<le> fuzz_ratio rt (normalize_text rt q) (normalize_text rt (fuzz_tieng row))}"
  by (auto simp add: fuzzy_results_def Let_def)

lemma sorted_by_negated_key:
  "sorted_wrt (\<lambda>a b. snd b \<le> snd a) (sort_key (\<lambda>x. - snd x) (xs :: ('a \<times> real) list))"
proof -
  have "sorted (map (\<lambda>x. - snd x) (sort_key (\<lambda>x. - snd x) xs))"
    by (rule sorted_sort_key)
  then show ?thesis by (simp add: sorted_map)
qed

lemma lower_ab: "normalize_text example_runtime (ascii ''ab'') = ascii ''ab''"
  by (simp add: normalize_text_def example_runtime_def ascii_lower_def strip_def isspace_def ascii_def)

lemma ratio_ab: "fuzz_ratio example_runtime (ascii ''ab'') (ascii ''ab'') = 100"
  by (simp add: example_runtime_def indel_ratio_def ascii_def)

text \<open>
  C5, as the source has it. The fuzzy matcher returns the \<open>word\<close> labels of the ranked
  pairs; the ranked pairs are exactly the pairs (label, score) of the index rows whose
  normalised source word scores at least the threshold against the normalised query,
  without duplicates and in order of non-increasing score; when no row clears the
  threshold the list is empty. The matcher itself does not bound the length: it is
  \<open>search_function\<close> that keeps the first five for its message, on the path where neither
  the exact matcher nor the lemma lookup found anything.
\<close>

theorem fuzzy_suggestions_ranked:
  assumes "set_iteration (scored_of_set rt)"
  shows "fuzzy_search_vietnet_search rt q db t = map fst (fuzzy_ranked rt q db t)
       \<and> set (fuzzy_ranked rt q db t)
           = {(fuzz_word row, fuzz_ratio rt (normalize_text rt q) (normalize_text rt (fuzz_tieng row))) | row.
                row \<in> set (VIETNET_FUZZ_SEARCH db)
              \<and> t \<le> fuzz_ratio rt (normalize_text rt q) (normalize_text rt (fuzz_tieng row))}
       \<and> distinct (fuzzy_ranked rt q db t)
       \<and> sorted_wrt (\<lambda>a b. snd b \<le> snd a) (fuzzy_ranked rt q db t)
       \<and> ((\<forall>row \<in> set (VIETNET_FUZZ_SEARCH db).
              fuzz_ratio rt (normalize_text rt q) (normalize_text rt (fuzz_tieng row)) < t)
            \<longrightarrow> fuzzy_search_vietnet_search rt q db t = [])
       \<and> (\<not> str_contains (ascii ''oewn-'') q
            \<and> exact_search_vietnet_search rt q db = []
            \<and> synsets lexicon q (ascii ''n'') = []
            \<longrightarrow> search_function rt q lexicon db
                  = Inr ([], Some (suggestion_message
                       (join (ascii '' | '') (take 5 (fuzzy_search_vietnet_search rt q db 80))))))
       \<and> length (take 5 (fuzzy_search_vietnet_search rt q db 80)) \<le> 5"
proof -
  have it: "distinct (scored_of_set rt xs) \<and> set (scored_of_set rt xs) = set xs" for xs
    using assms by (simp add: set_iteration_def)
  have s: "set (fuzzy_ranked rt q db t) = set (fuzzy_results rt q db t)"
    by (simp add: fuzzy_ranked_def it)
  have d: "distinct (fuzzy_ranked rt q db t)"
    by (simp add: fuzzy_ranked_def it)
  have o: "sorted_wrt (\<lambda>a b. snd b \<le> snd a) (fuzzy_ranked rt q db t)"
    unfolding fuzzy_ranked_def by (rule sorted_by_negated_key)
  have e: "fuzzy_search_vietnet_search rt q db t = []"
    if "\<forall>row \<in> set (VIETNET_FUZZ_SEARCH db).
              fuzz_ratio rt (normalize_text rt q) (normalize_text rt (fuzz_tieng row)) < t"
  proof -
    have "set (fuzzy_ranked rt q db t) = {}"
      unfolding s fuzzy_results_set using that by fastforce
    then show ?thesis by (simp add: fuzzy_search_vietnet_search_def)
  qed
  have m: "search_function rt q lexicon db
                  = Inr ([], Some (suggestion_message
                       (join (ascii '' | '') (take 5 (fuzzy_search_vietnet_search rt q db 80)))))"
    if "\<not> str_contains (ascii ''oewn-'') q" "exact_search_vietnet_search rt q db = []"
       "synsets lexicon q (ascii ''n'') = []"
    using that(2,3) by (simp add: free_text_branch [OF that(1)])
  show ?thesis
    using s d o e m fuzzy_results_set [of rt q db t]
    by (simp add: fuzzy_search_vietnet_search_def)
qed

text \<open>The theorem at the example store, for a query in upper case with blanks around it.\<close>

theorem fuzzy_suggestions_ranked_witness:
  "set_iteration (scored_of_set example_runtime)
   \<and> fuzzy_ranked example_runtime (ascii '' Con ch'' @ [0xF3, 0x20]) example_store 80
       = [(ascii ''con ch'' @ [0xF3], 100)]
   \<and> fuzzy_search_vietnet_search example_runtime (ascii '' Con ch'' @ [0xF3, 0x20]) example_store 80
       = [ascii ''con ch'' @ [0xF3]]
   \<and> distinct (fuzzy_ranked example_runtime (ascii '' Con ch'' @ [0xF3, 0x20]) example_store 80)
   \<and> sorted_wrt (\<lambda>a b. snd b \<le> snd a)
        (fuzzy_ranked example_runtime (ascii '' Con ch'' @ [0xF3, 0x20]) example_store 80)"
proof -
  let ?q = "ascii '' Con ch'' @ [0xF3, 0x20]"
  have h: "set_iteration (scored_of_set example_runtime)"
    by (simp add: example_runtime_def set_iteration_remdups)
  have r: "fuzzy_results example_runtime ?q example_store 80 = [(ascii ''con ch'' @ [0xF3], 100)]"
    by (simp add: fuzzy_results_def Let_def example_store_def normalize_text_def example_runtime_def
        ascii_lower_def strip_def isspace_def indel_ratio_def ascii_def)
  have k: "fuzzy_ranked example_runtime ?q example_store 80 = [(ascii ''con ch'' @ [0xF3], 100)]"
    unfolding fuzzy_ranked_def r by (simp add: example_runtime_def)
  from fuzzy_suggestions_ranked [OF h, of ?q example_store 80] have
    "fuzzy_search_vietnet_search example_runtime ?q example_store 80
       = map fst (fuzzy_ranked example_runtime ?q example_store 80)
     \<and> distinct (fuzzy_ranked example_runtime ?q example_store 80)
     \<and> sorted_wrt (\<lambda>a b. snd b \<le> snd a) (fuzzy_ranked example_runtime ?q example_store 80)"
    by blast
  with h k show ?thesis by simp
qed

text \<open>
  C5, as the claim states it, fails in the length bound: with six index rows that all
  clear the threshold the fuzzy matcher returns six words.
\<close>

theorem fuzzy_search_six_results:
  "fuzzy_search_vietnet_search example_runtime (ascii ''ab'') six_words 80
     = [ascii ''w1'', ascii ''w2'', ascii ''w3'', ascii ''w4'', ascii ''w5'', ascii ''w6'']
   \<and> length (fuzzy_search_vietnet_search example_runtime (ascii ''ab'') six_words 80) = 6
   \<and> \<not> length (fuzzy_search_vietnet_search example_runtime (ascii ''ab'') six_words 80) \<le> 5"
proof -
  have r: "fuzzy_results example_runtime (ascii ''ab'') six_words 80
     = map (\<lambda>w. (ascii w, 100)) [''w1'', ''w2'', ''w3'', ''w4'', ''w5'', ''w6'']"
    by (simp add: fuzzy_results_def Let_def six_words_def lower_ab ratio_ab)
  have u: "scored_of_set example_runtime = remdups"
    by (simp add: example_runtime_def)
  have k: "fuzzy_ranked example_runtime (ascii ''ab'') six_words 80
     = map (\<lambda>w. (ascii w, 100)) [''w1'', ''w2'', ''w3'', ''w4'', ''w5'', ''w6'']"
    unfolding fuzzy_ranked_def r u by (simp add: ascii_def)
  show ?thesis
    unfolding fuzzy_search_vietnet_search_def k by simp
qed

section \<open>Normalisation\<close>

text \<open>
  \<open>strip\<close> removes a run of white space at each end and nothing else: what it returns
  neither starts nor ends with white space, and a text that neither starts nor ends with
  white space comes back as it is, whatever white space it has inside.
\<close>

lemma strip_rest:
  "dropWhile isspace s = strip s @ rev (takeWhile isspace (rev (dropWhile isspace s)))"
proof -
  let ?d = "dropWhile isspace s"
  have "rev (takeWhile isspace (rev ?d) @ dropWhile isspace (rev ?d)) = ?d"
    by (simp only: takeWhile_dropWhile_id rev_rev_ident)
  then show ?thesis by (simp only: rev_append strip_def)
qed

lemma strip_split:
  "\<exists>pre suf. s = pre @ strip s @ suf \<and> list_all isspace pre \<and> list_all isspace suf"
proof -
  let ?d = "dropWhile isspace s"
  have 1: "s = takeWhile isspace s @ ?d" by simp
  have 2: "?d = strip s @ rev (takeWhile isspace (rev ?d))"
    by (rule strip_rest)
  have 3: "list_all isspace (takeWhile isspace s)"
    by (simp add: list_all_iff) (meson set_takeWhileD)
  have 4: "list_all isspace (rev (takeWhile isspace (rev ?d)))"
    by (simp add: list_all_iff) (meson set_takeWhileD)
  from 1 2 have "s = takeWhile isspace s @ strip s @ rev (takeWhile isspace (rev ?d))"
    by simp
  with 3 4 show ?thesis by blast
qed

lemma strip_ends:
  assumes "strip s \<noteq> []"
  shows "\<not> isspace (hd (strip s)) \<and> \<not> isspace (last (strip s))"
proof -
  let ?d = "dropWhile isspace s"
  let ?e = "dropWhile isspace (rev ?d)"
  have e: "?e \<noteq> []" using assms by (simp add: strip_def)
  then have l: "\<not> isspace (hd ?e)" by (rule hd_dropWhile)
  have "last (strip s) = hd ?e" using e by (simp add: strip_def last_rev)
  with l have last: "\<not> isspace (last (strip s))" by simp
  have d: "?d \<noteq> []"
  proof
    assume a: "?d = []"
    have "?e = []" unfolding a by simp
    with e show False by contradiction
  qed
  then have hd: "\<not> isspace (hd ?d)" by (rule hd_dropWhile)
  have "?d = strip s @ rev (takeWhile isspace (rev ?d))" by (rule strip_rest)
  then have "hd ?d = hd (strip s)" using assms by (metis hd_append2)
  with hd last show ?thesis by simp
qed

lemma dropWhile_all: "list_all P xs \<Longrightarrow> dropWhile P (xs @ ys) = dropWhile P ys"
  by (induction xs) simp_all

lemma strip_core:
  assumes "list_all isspace pre" and "list_all isspace suf"
    and "core \<noteq> []" and "\<not> isspace (hd core)" and "\<not> isspace (last core)"
  shows "strip (pre @ core @ suf) = core"
proof -
  have 1: "dropWhile isspace (pre @ core @ suf) = core @ suf"
    using assms(1,3,4) by (cases core) (simp_all add: dropWhile_all)
  have r: "list_all isspace (rev suf)" using assms(2) by (simp add: list_all_iff)
  have c: "rev core \<noteq> []" "\<not> isspace (hd (rev core))"
    using assms(3,5) by (simp_all add: hd_rev)
  have 2: "dropWhile isspace (rev suf @ rev core) = rev core"
    using r c by (cases "rev core") (simp_all add: dropWhile_all)
  show ?thesis by (simp add: strip_def 1 2)
qed

text \<open>
  C8. \<open>normalize\<close> returns the lower-cased text without its leading and trailing white
  space: the lower-cased text is the result between two runs of white space, and the
  result neither starts nor ends with white space. It is a function of the text alone
  and has a result for every text (\<open>str.lower\<close> and \<open>str.strip\<close> raise nothing on a
  string). White space inside is kept: whenever the lower-cased text is a core between two
  runs of white space, the result is that core unchanged; so for a runtime whose
  lower-casing leaves the two lower-case texts \<open>con  ch\<dots>\<close> (two blanks) and \<open>con ch\<dots>\<close> as
  they are, the two normalise to themselves, hence to different texts, and the exact
  matcher does not find an index entry of the one for a query of the other.
\<close>

theorem normalize_lower_strip:
  "normalize_text rt text = strip (str_lower rt text)
   \<and> (\<exists>pre suf. str_lower rt text = pre @ normalize_text rt text @ suf
         \<and> list_all isspace pre \<and> list_all isspace suf)
   \<and> (normalize_text rt text \<noteq> [] \<longrightarrow>
         \<not> isspace (hd (normalize_text rt text)) \<and> \<not> isspace (last (normalize_text rt text)))
   \<and> (\<forall>pre core suf.
         str_lower rt text = pre @ core @ suf \<and> list_all isspace pre \<and> list_all isspace suf
         \<and> core \<noteq> [] \<and> \<not> isspace (hd core) \<and> \<not> isspace (last core)
         \<longrightarrow> normalize_text rt text = core)
   \<and> (str_lower rt (ascii ''con  ch'' @ [0xF3]) = ascii ''con  ch'' @ [0xF3]
       \<and> str_lower rt (ascii ''con ch'' @ [0xF3]) = ascii ''con ch'' @ [0xF3]
       \<longrightarrow> normalize_text rt (ascii ''con  ch'' @ [0xF3]) = ascii ''con  ch'' @ [0xF3]
         \<and> normalize_text rt (ascii ''con ch'' @ [0xF3]) = ascii ''con ch'' @ [0xF3]
         \<and> normalize_text rt (ascii ''con  ch'' @ [0xF3]) \<noteq> normalize_text rt (ascii ''con ch'' @ [0xF3])
         \<and> exact_search_vietnet_search rt (ascii ''con  ch'' @ [0xF3])
              \<lparr>VIETNET_DATA = [],
               VIETNET_EXACT_SEARCH =
                 [\<lparr>exact_tieng = ascii ''con ch'' @ [0xF3], exact_synset_id = sid\<rparr>],
               VIETNET_FUZZ_SEARCH = []\<rparr> = []
         \<and> exact_search_vietnet_search rt (ascii ''con ch'' @ [0xF3])
              \<lparr>VIETNET_DATA = [],
               VIETNET_EXACT_SEARCH =
                 [\<lparr>exact_tieng = ascii ''con ch'' @ [0xF3], exact_synset_id = sid\<rparr>],
               VIETNET_FUZZ_SEARCH = []\<rparr> = [sid])"
proof -
  have s2: "strip (ascii ''con  ch'' @ [0xF3]) = ascii ''con  ch'' @ [0xF3]"
    by (simp add: strip_def isspace_def ascii_def)
  have s1: "strip (ascii ''con ch'' @ [0xF3]) = ascii ''con ch'' @ [0xF3]"
    by (simp add: strip_def isspace_def ascii_def)
  have ne: "ascii ''con  ch'' @ [0xF3] \<noteq> ascii ''con ch'' @ [0xF3]"
    by (simp add: ascii_def)
  have a: "\<exists>pre suf. str_lower rt text = pre @ normalize_text rt text @ suf
         \<and> list_all isspace pre \<and> list_all isspace suf"
    unfolding normalize_text_def by (rule strip_split)
  have b: "normalize_text rt text \<noteq> [] \<longrightarrow>
         \<not> isspace (hd (normalize_text rt text)) \<and> \<not> isspace (last (normalize_text rt text))"
    unfolding normalize_text_def using strip_ends by blast
  have c: "\<forall>pre core suf.
         str_lower rt text = pre @ core @ suf \<and> list_all isspace pre \<and> list_all isspace suf
         \<and> core \<noteq> [] \<and> \<not> isspace (hd core) \<and> \<not> isspace (last core)
         \<longrightarrow> normalize_text rt text = core"
    unfolding normalize_text_def using strip_core by simp
  have d: "str_lower rt (ascii ''con  ch'' @ [0xF3]) = ascii ''con  ch'' @ [0xF3]
       \<and> str_lower rt (ascii ''con ch'' @ [0xF3]) = ascii ''con ch'' @ [0xF3]
       \<longrightarrow> normalize_text rt (ascii ''con  ch'' @ [0xF3]) = ascii ''con  ch'' @ [0xF3]
         \<and> normalize_text rt (ascii ''con ch'' @ [0xF3]) = ascii ''con ch'' @ [0xF3]
         \<and> normalize_text rt (ascii ''con  ch'' @ [0xF3]) \<noteq> normalize_text rt (ascii ''con ch'' @ [0xF3])
         \<and> exact_search_vietnet_search rt (ascii ''con  ch'' @ [0xF3])
              \<lparr>VIETNET_DATA = [],
               VIETNET_EXACT_SEARCH =
                 [\<lparr>exact_tieng = ascii ''con ch'' @ [0xF3], exact_synset_id = sid\<rparr>],
               VIETNET_FUZZ_SEARCH = []\<rparr> = []
         \<and> exact_search_vietnet_search rt (ascii ''con ch'' @ [0xF3])
              \<lparr>VIETNET_DATA = [],
               VIETNET_EXACT_SEARCH =
                 [\<lparr>exact_tieng = ascii ''con ch'' @ [0xF3], exact_synset_id = sid\<rparr>],
               VIETNET_FUZZ_SEARCH = []\<rparr> = [sid]"
  proof (intro impI, elim conjE)
    assume l2: "str_lower rt (ascii ''con  ch'' @ [0xF3]) = ascii ''con  ch'' @ [0xF3]"
      and l1: "str_lower rt (ascii ''con ch'' @ [0xF3]) = ascii ''con ch'' @ [0xF3]"
    have n2: "normalize_text rt (ascii ''con  ch'' @ [0xF3]) = ascii ''con  ch'' @ [0xF3]"
      unfolding normalize_text_def l2 by (rule s2)
    have n1: "normalize_text rt (ascii ''con ch'' @ [0xF3]) = ascii ''con ch'' @ [0xF3]"
      unfolding normalize_text_def l1 by (rule s1)
    show "normalize_text rt (ascii ''con  ch'' @ [0xF3]) = ascii ''con  ch'' @ [0xF3]
         \<and> normalize_text rt (ascii ''con ch'' @ [0xF3]) = ascii ''con ch'' @ [0xF3]
         \<and> normalize_text rt (ascii ''con  ch'' @ [0xF3]) \<noteq> normalize_text rt (ascii ''con ch'' @ [0xF3])
         \<and> exact_search_vietnet_search rt (ascii ''con  ch'' @ [0xF3])
              \<lparr>VIETNET_DATA = [],
               VIETNET_EXACT_SEARCH =
                 [\<lparr>exact_tieng = ascii ''con ch'' @ [0xF3], exact_synset_id = sid\<rparr>],
               VIETNET_FUZZ_SEARCH = []\<rparr> = []
         \<and> exact_search_vietnet_search rt (ascii ''con ch'' @ [0xF3])
              \<lparr>VIETNET_DATA = [],
               VIETNET_EXACT_SEARCH =
                 [\<lparr>exact_tieng = ascii ''con ch'' @ [0xF3], exact_synset_id = sid\<rparr>],
               VIETNET_FUZZ_SEARCH = []\<rparr> = [sid]"
      using ne by (simp add: exact_search_vietnet_search_def Let_def n1 n2)
  qed
  have z: "normalize_text rt text = strip (str_lower rt text)"
    by (simp add: normalize_text_def)
  from z a b c d show ?thesis by blast
qed

text \<open>
  The theorem at the example runtime, for the two texts of the claim and for the text
  \<open>Con  Ch\<dots>\<close> with a blank before it and a line feed after it.
\<close>

theorem normalize_lower_strip_witness:
  "str_lower example_runtime (ascii ''con  ch'' @ [0xF3]) = ascii ''con  ch'' @ [0xF3]
   \<and> str_lower example_runtime (ascii ''con ch'' @ [0xF3]) = ascii ''con ch'' @ [0xF3]
   \<and> normalize_text example_runtime (ascii '' Con  Ch'' @ [0xF3, 0x0A]) = ascii ''con  ch'' @ [0xF3]
   \<and> normalize_text example_runtime (ascii ''con  ch'' @ [0xF3])
       \<noteq> normalize_text example_runtime (ascii ''con ch'' @ [0xF3])
   \<and> exact_search_vietnet_search example_runtime (ascii ''con  ch'' @ [0xF3])
        \<lparr>VIETNET_DATA = [],
         VIETNET_EXACT_SEARCH =
           [\<lparr>exact_tieng = ascii ''con ch'' @ [0xF3], exact_synset_id = ascii ''oewn-1-n''\<rparr>],
         VIETNET_FUZZ_SEARCH = []\<rparr> = []"
proof -
  have h2: "str_lower example_runtime (ascii ''con  ch'' @ [0xF3]) = ascii ''con  ch'' @ [0xF3]"
    by (simp add: example_runtime_def ascii_lower_def ascii_def)
  have h1: "str_lower example_runtime (ascii ''con ch'' @ [0xF3]) = ascii ''con ch'' @ [0xF3]"
    by (simp add: example_runtime_def ascii_lower_def ascii_def)
  have l: "str_lower example_runtime (ascii '' Con  Ch'' @ [0xF3, 0x0A])
             = [0x20] @ (ascii ''con  ch'' @ [0xF3]) @ [0x0A]"
    by (simp add: example_runtime_def ascii_lower_def ascii_def)
  have c: "list_all isspace [0x20]" "list_all isspace [0x0A]"
    "ascii ''con  ch'' @ [0xF3] \<noteq> []"
    "\<not> isspace (hd (ascii ''con  ch'' @ [0xF3]))" "\<not> isspace (last (ascii ''con  ch'' @ [0xF3]))"
    by (simp_all add: isspace_def ascii_def)
  note t = normalize_lower_strip [of example_runtime "ascii '' Con  Ch'' @ [0xF3, 0x0A]"
      "ascii ''oewn-1-n''"]
  from t l c have n: "normalize_text example_runtime (ascii '' Con  Ch'' @ [0xF3, 0x0A])
      = ascii ''con  ch'' @ [0xF3]"
    by blast
  from t h1 h2 have
    "normalize_text example_runtime (ascii ''con  ch'' @ [0xF3])
       \<noteq> normalize_text example_runtime (ascii ''con ch'' @ [0xF3])
   \<and> exact_search_vietnet_search example_runtime (ascii ''con  ch'' @ [0xF3])
        \<lparr>VIETNET_DATA = [],
         VIETNET_EXACT_SEARCH =
           [\<lparr>exact_tieng = ascii ''con ch'' @ [0xF3], exact_synset_id = ascii ''oewn-1-n''\<rparr>],
         VIETNET_FUZZ_SEARCH = []\<rparr> = []"
    by blast
  with h1 h2 n show ?thesis by blast
qed

section \<open>The forest\<close>



end
